theory Spec2Isabelle
  imports Main
begin

section \<open>Library behaviour the bundler relies on\<close>

subsection \<open>JavaScript \<open>Map\<close>: an insertion-ordered dictionary\<close>

text \<open>
  A JavaScript \<open>Map\<close> iterates its entries in the order in which their keys were
  first inserted, and \<open>set\<close> on a key that is present replaces the value in place.
  The model is an association list: \<open>Map_set\<close> overwrites the entry of a present key
  where it stands and appends an absent key at the end.
\<close>

type_synonym ('k, 'v) Map = "('k \<times> 'v) list"

definition Map_has :: "('k, 'v) Map \<Rightarrow> 'k \<Rightarrow> bool" where
  "Map_has m k = (k \<in> set (map fst m))"

definition Map_get :: "('k, 'v) Map \<Rightarrow> 'k \<Rightarrow> 'v option" where
  "Map_get m k = map_of m k"

fun Map_set :: "('k, 'v) Map \<Rightarrow> 'k \<Rightarrow> 'v \<Rightarrow> ('k, 'v) Map" where
  "Map_set [] k v = [(k, v)]"
| "Map_set ((k', v') # m) k v =
     (if k' = k then (k, v) # m else (k', v') # Map_set m k v)"

definition Map_keys :: "('k, 'v) Map \<Rightarrow> 'k list" where
  "Map_keys m = map fst m"

definition Map_values :: "('k, 'v) Map \<Rightarrow> 'v list" where
  "Map_values m = map snd m"

subsection \<open>JavaScript strings: \<open>startsWith\<close> and \<open>replace\<close>\<close>

text \<open>
  Paths are strings, here lists of characters; the operations below compare and copy
  characters only, so the encoding plays no part. \<open>String.prototype.startsWith\<close> is
  the prefix test.
  \<open>String.prototype.replace\<close> with a string pattern replaces the first occurrence of
  the pattern only, and it does not insert the replacement text literally: the
  replacement is a template in which \<open>$$\<close>, \<open>$&\<close>, \<open>$`\<close> and \<open>$'\<close> stand for a
  dollar sign, the matched text, the text before the match and the text after it
  (ECMAScript's GetSubstitution; with a string pattern there are no capture groups, so
  every other use of \<open>$\<close> is literal).
\<close>

definition startsWith :: "string \<Rightarrow> string \<Rightarrow> bool" where
  "startsWith s searchString = (take (length searchString) s = searchString)"

fun GetSubstitution :: "string \<Rightarrow> string \<Rightarrow> string \<Rightarrow> string \<Rightarrow> string" where
  "GetSubstitution matched preceding following [] = []"
| "GetSubstitution matched preceding following [c] = [c]"
| "GetSubstitution matched preceding following (c # d # template) =
     (if c = CHR ''$'' \<and> d = CHR ''$''
        then CHR ''$'' # GetSubstitution matched preceding following template
      else if c = CHR ''$'' \<and> d = CHR ''&''
        then matched @ GetSubstitution matched preceding following template
      else if c = CHR ''$'' \<and> d = CHR 0x60
        then preceding @ GetSubstitution matched preceding following template
      else if c = CHR ''$'' \<and> d = CHR 0x27
        then following @ GetSubstitution matched preceding following template
      else c # GetSubstitution matched preceding following (d # template))"

text \<open>
  \<open>StringIndexOf s searchValue\<close> finds the first occurrence of the pattern and returns
  the text before it and the text after it, or \<open>None\<close> when the pattern does not occur.
\<close>

fun StringIndexOf :: "string \<Rightarrow> string \<Rightarrow> (string \<times> string) option" where
  "StringIndexOf [] searchValue = (if searchValue = [] then Some ([], []) else None)"
| "StringIndexOf (c # cs) searchValue =
     (if startsWith (c # cs) searchValue
        then Some ([], drop (length searchValue) (c # cs))
      else map_option (\<lambda>(preceding, following). (c # preceding, following))
             (StringIndexOf cs searchValue))"

definition String_replace :: "string \<Rightarrow> string \<Rightarrow> string \<Rightarrow> string" where
  "String_replace s searchValue replaceValue =
     (case StringIndexOf s searchValue of
        None \<Rightarrow> s
      | Some (preceding, following) \<Rightarrow>
          preceding @ GetSubstitution searchValue preceding following replaceValue @ following)"

subsection \<open>Node's \<open>path.resolve\<close> (POSIX)\<close>

text \<open>
  \<open>resolvePath\<close> is \<open>path.resolve\<close> of Node's standard library, called with one
  argument. A relative argument is taken against the process's working directory \<open>cwd\<close>
  (an absolute path); the result is absolute and normalised: empty segments and \<open>.\<close>
  segments are dropped, a \<open>..\<close> segment removes the segment before it (and is dropped
  at the root), and no separator is left at the end.
\<close>

fun splitSegments :: "string \<Rightarrow> string list" where
  "splitSegments [] = [[]]"
| "splitSegments (c # cs) =
     (if c = CHR ''/'' then [] # splitSegments cs
      else (case splitSegments cs of
              [] \<Rightarrow> [[c]]
            | seg # segs \<Rightarrow> (c # seg) # segs))"

fun normalizeSegments :: "string list \<Rightarrow> string list \<Rightarrow> string list" where
  "normalizeSegments res [] = rev res"
| "normalizeSegments res (seg # segs) =
     (if seg = [] \<or> seg = ''.'' then normalizeSegments res segs
      else if seg = ''..'' then normalizeSegments (tl res) segs
      else normalizeSegments (seg # res) segs)"

fun joinSegments :: "string list \<Rightarrow> string" where
  "joinSegments [] = []"
| "joinSegments [seg] = seg"
| "joinSegments (seg # seg' # segs) = seg @ ''/'' @ joinSegments (seg' # segs)"

definition isAbsolute :: "string \<Rightarrow> bool" where
  "isAbsolute p = startsWith p ''/''"

definition resolvePath :: "string \<Rightarrow> string \<Rightarrow> string" where
  "resolvePath cwd p =
     CHR ''/'' # joinSegments (normalizeSegments []
       (splitSegments (if isAbsolute p then p else cwd @ ''/'' @ p)))"

text \<open>
  The normal form that \<open>path.resolve\<close> produces: an absolute path, either the root
  or a sequence of segments none of which is empty, \<open>.\<close> or \<open>..\<close>.
\<close>

definition properSegment :: "string \<Rightarrow> bool" where
  "properSegment seg = (seg \<noteq> [] \<and> seg \<noteq> ''.'' \<and> seg \<noteq> ''..'')"

fun normalForm :: "string \<Rightarrow> bool" where
  "normalForm [] = False"
| "normalForm (c # rest) =
     (c = CHR ''/'' \<and> (rest = [] \<or> list_all properSegment (splitSegments rest)))"

section \<open>The bundler\<close>

subsection \<open>Files and stream chunks\<close>

text \<open>
  A Vinyl file object carries its path and further data (contents, stat, ...), kept
  here as one field of an arbitrary type. \<open>VinylExtension\<close> adds the transient
  \<open>Precedence\<close> field the bundler attaches while a file sits in its table.

  A stream chunk is anything (\<open>chunk: any\<close>). \<open>Vinyl.isVinyl\<close> holds of a Vinyl file
  with a path (\<open>VinylChunk\<close>) and also of a Vinyl object that was created without
  one, whose \<open>path\<close> reads \<open>undefined\<close> (\<open>PathlessVinyl\<close>, with its other data); it
  does not hold of any other value (\<open>OtherChunk\<close>).
\<close>

record 'c Vinyl =
  path :: string
  contents :: 'c

record 'c VinylExtension = "'c Vinyl" +
  Precedence :: nat

datatype ('c, 'x) chunk = VinylChunk "'c Vinyl" | PathlessVinyl 'c | OtherChunk 'x

fun isVinyl :: "('c, 'x) chunk \<Rightarrow> bool" where
  "isVinyl (VinylChunk f) = True"
| "isVinyl (PathlessVinyl d) = True"
| "isVinyl (OtherChunk x) = False"

subsection \<open>ResolveVirtualPath\<close>

text \<open>
  The loop over \<open>this.PathTransforms.entries()\<close>: the rules are visited in order with
  their 0-based index; the first rule whose old prefix starts the path decides.
\<close>

fun ResolveVirtualPath_loop ::
  "string \<Rightarrow> string \<Rightarrow> (nat \<times> string \<times> string) list \<Rightarrow> string \<times> nat" where
  "ResolveVirtualPath_loop cwd p [] = (p, 0)"
| "ResolveVirtualPath_loop cwd p ((index, oldPathStart, newPathStart) # entries) =
     (if startsWith p oldPathStart
        then (resolvePath cwd (String_replace p oldPathStart newPathStart), index)
      else ResolveVirtualPath_loop cwd p entries)"

definition ResolveVirtualPath ::
  "string \<Rightarrow> (string \<times> string) list \<Rightarrow> string \<Rightarrow> string \<times> nat" where
  "ResolveVirtualPath cwd pathTransforms p =
     ResolveVirtualPath_loop cwd p (enumerate 0 pathTransforms)"

subsection \<open>Configuration and state\<close>

text \<open>
  The raw configuration, with the fields the constructor reads. An absent field is
  \<open>None\<close>. \<open>bundles\<close> is the \<open>bundle\<close> object: the bundle definitions in the order
  in which the constructor's \<open>for ... in\<close> loop enumerates them. \<open>RawPathTransforms\<close> is
  the configuration's \<open>PathTransforms\<close> field (the rules before they are made absolute).
\<close>

record Bundle =
  scripts :: "string list option"
  styles :: "string list option"

record RawConfig =
  PathTransformBasePath :: "string option"
  RawPathTransforms :: "(string \<times> string) list option"
  BundlesBasePath :: "string option"
  bundles :: "(string \<times> Bundle) list option"

text \<open>
  The two bundler factories are external collaborators; the bundler only stores them
  and hands them to \<open>BundlesProcessor\<close>.
\<close>

record 'f Bundlers =
  Scripts :: 'f
  Styles :: 'f

text \<open>
  What a \<open>catch\<close> can receive: the engine's \<open>TypeError\<close> for a method call on
  \<open>undefined\<close>, an \<open>Error\<close> with its message, or any other thrown value. A failure
  reported to the stream is a \<open>PluginError\<close>: the plugin's name and the original
  fault it wraps.
\<close>

datatype 'e thrown = TypeError | Error string | Thrown 'e

datatype 'e PluginError = PluginError string 'e

text \<open>
  The fields of the class, and the two parts of the stream it extends that its methods
  act on: \<open>readable\<close>, the chunks pushed so far with \<open>this.push\<close>, in order, and
  \<open>callbacks\<close>, the calls made so far to the \<open>callback\<close> of \<open>_transform\<close> and
  \<open>_flush\<close>, each with the error it was given (\<open>None\<close> for \<open>callback()\<close>).
\<close>

record ('c, 'x, 'f, 'e) Bundler =
  ResolvedFiles :: "(string, 'c VinylExtension) Map"
  PathTransforms :: "(string \<times> string) list"
  ScriptBundles :: "(string, string list) Map"
  StyleBundles :: "(string, string list) Map"
  Bundlers :: "'f Bundlers"
  ResultsMap :: "(string, string list) Map"
  readable :: "('c, 'x) chunk list"
  callbacks :: "'e thrown PluginError option list"

subsection \<open>The constructor\<close>

text \<open>
  \<open>orDefault\<close> is the test \<open>if (!x) x = process.cwd()\<close>: an absent or empty string
  is replaced by the working directory.
\<close>

definition orDefault :: "string option \<Rightarrow> string \<Rightarrow> string" where
  "orDefault x cwd = (case x of None \<Rightarrow> cwd | Some s \<Rightarrow> if s = [] then cwd else s)"

definition resolveAll :: "string \<Rightarrow> string \<Rightarrow> string list \<Rightarrow> string list" where
  "resolveAll cwd basePath paths = map (\<lambda>p. resolvePath cwd (basePath @ ''/'' @ p)) paths"

definition addBundles ::
  "string \<Rightarrow> string \<Rightarrow> (Bundle \<Rightarrow> string list option) \<Rightarrow> (string \<times> Bundle) list \<Rightarrow>
   (string, string list) Map" where
  "addBundles cwd basePath field bundleList =
     fold (\<lambda>(name, b) m. case field b of
                            None \<Rightarrow> m
                          | Some paths \<Rightarrow> Map_set m name (resolveAll cwd basePath paths))
          bundleList []"

definition Bundler_new :: "string \<Rightarrow> RawConfig \<Rightarrow> 'f Bundlers \<Rightarrow> ('c, 'x, 'f, 'e) Bundler" where
  "Bundler_new cwd config joiner =
     (let transformBase = orDefault (PathTransformBasePath config) cwd;
          bundlesBase = orDefault (BundlesBasePath config) cwd;
          bundleList = (case bundles config of None \<Rightarrow> [] | Some bs \<Rightarrow> bs)
      in \<lparr> ResolvedFiles = [],
           PathTransforms =
             (case RawPathTransforms config of
                None \<Rightarrow> []
              | Some rules \<Rightarrow>
                  map (\<lambda>(oldPath, newPath).
                         (resolvePath cwd (transformBase @ ''/'' @ oldPath),
                          resolvePath cwd (transformBase @ ''/'' @ newPath))) rules),
           ScriptBundles = addBundles cwd bundlesBase scripts bundleList,
           StyleBundles = addBundles cwd bundlesBase styles bundleList,
           Bundlers = joiner,
           ResultsMap = [],
           readable = [],
           callbacks = [] \<rparr>)"

subsection \<open>Per-item processing: \<open>_transform\<close>\<close>

text \<open>
  \<open>upsert\<close> is the collision handling of \<open>_transform\<close> (the \<open>has\<close>/\<open>get\<close>/\<open>set\<close>
  block on \<open>this.ResolvedFiles\<close>): a free path takes the file; an occupied path takes
  it only when the incumbent's precedence is smaller.
\<close>

definition upsert ::
  "(string, 'c VinylExtension) Map \<Rightarrow> 'c VinylExtension \<Rightarrow> (string, 'c VinylExtension) Map" where
  "upsert resolvedFiles file =
     (if Map_has resolvedFiles (path file)
        then (if Precedence (the (Map_get resolvedFiles (path file))) < Precedence file
                then Map_set resolvedFiles (path file) file
              else resolvedFiles)
      else Map_set resolvedFiles (path file) file)"

text \<open>
  The chunk itself is turned into the table entry: its path is overwritten with the
  virtual path and the precedence is attached. (Vinyl's path setter normalises what it
  is given; the virtual path is either the file's own path or a result of
  \<open>path.resolve\<close>, which the setter leaves as it is.)
\<close>

definition extendChunk :: "'c Vinyl \<Rightarrow> string \<Rightarrow> nat \<Rightarrow> 'c VinylExtension" where
  "extendChunk c virtualPath precedence =
     \<lparr> path = virtualPath, contents = contents c, Precedence = precedence \<rparr>"

definition callback ::
  "('c, 'x, 'f, 'e) Bundler \<Rightarrow> 'e thrown PluginError option \<Rightarrow> ('c, 'x, 'f, 'e) Bundler" where
  "callback b error = b\<lparr> callbacks := callbacks b @ [error] \<rparr>"

definition push :: "('c, 'x, 'f, 'e) Bundler \<Rightarrow> ('c, 'x) chunk \<Rightarrow> ('c, 'x, 'f, 'e) Bundler" where
  "push b chunk = b\<lparr> readable := readable b @ [chunk] \<rparr>"

text \<open>
  What the \<open>try\<close> block throws for a Vinyl object without a path, before it reaches
  the table. With at least one rule, \<open>ResolveVirtualPath\<close> calls \<open>startsWith\<close> on
  \<open>undefined\<close> in its first iteration: a \<open>TypeError\<close>. With no rule it returns the
  undefined path, and the assignment \<open>file.path = virtualPath\<close> fails in Vinyl's path
  setter, which throws \<open>Error('path should be a string.')\<close>.
\<close>

definition undefinedPathFault :: "(string \<times> string) list \<Rightarrow> 'e thrown" where
  "undefinedPathFault pathTransforms =
     (if pathTransforms = [] then Error ''path should be a string.'' else TypeError)"

text \<open>
  \<open>_transform\<close>, with its \<open>try\<close> and \<open>catch\<close>: a file with a path is resolved and
  upserted, and \<open>callback()\<close> follows; a Vinyl object without a path throws, and the
  \<open>catch\<close> branch calls \<open>callback\<close> with the \<open>PluginError\<close> that wraps what was
  thrown, the table and the readable side being as they were; any other chunk is
  pushed, and \<open>callback()\<close> follows. \<open>PluginName\<close> (module \<open>./plugin-details\<close>) is a
  parameter. Every chunk written to the stream is taken to be an object of its own:
  the assignments to \<open>file.path\<close> and \<open>file.Precedence\<close> are then seen through no
  entry that the table already holds.
\<close>

definition Bundler_transform ::
  "string \<Rightarrow> string \<Rightarrow> ('c, 'x, 'f, 'e) Bundler \<Rightarrow> ('c, 'x) chunk \<Rightarrow>
   ('c, 'x, 'f, 'e) Bundler" where
  "Bundler_transform PluginName cwd b chunk =
     (case chunk of
        VinylChunk c \<Rightarrow>
          (let (virtualPath, precedence) = ResolveVirtualPath cwd (PathTransforms b) (path c);
               file = extendChunk c virtualPath precedence
           in callback (b\<lparr> ResolvedFiles := upsert (ResolvedFiles b) file \<rparr>) None)
      | PathlessVinyl d \<Rightarrow>
          callback b (Some (PluginError PluginName (undefinedPathFault (PathTransforms b))))
      | OtherChunk x \<Rightarrow> callback (push b chunk) None)"

subsection \<open>Completion processing: \<open>_flush\<close>\<close>

text \<open>
  \<open>BundlesProcessor\<close> (module \<open>./bundles-processor\<close>) is a parameter of the model: a
  function that reads the table, one bundle registry and one factory, and either fails
  with a fault (the awaited promise rejects) or returns the chunks to emit and a map
  from bundle name to output paths. \<open>_flush\<close> awaits it once for scripts and once for
  styles; a fault ends the \<open>try\<close> block where it arises, so what was pushed and
  recorded before it stays, and the \<open>catch\<close> branch reports it.
\<close>

type_synonym ('c, 'x, 'f, 'e) processor =
  "(string, 'c VinylExtension) Map \<Rightarrow> (string, string list) Map \<Rightarrow> 'f \<Rightarrow>
   'e thrown + (('c, 'x) chunk list \<times> (string, string list) Map)"

definition pushChunks ::
  "('c, 'x, 'f, 'e) Bundler \<Rightarrow> ('c, 'x) chunk list \<Rightarrow> ('c, 'x, 'f, 'e) Bundler" where
  "pushChunks b chunks = fold (\<lambda>chunk b'. push b' chunk) chunks b"

definition setResults ::
  "('c, 'x, 'f, 'e) Bundler \<Rightarrow> (string, string list) Map \<Rightarrow> ('c, 'x, 'f, 'e) Bundler" where
  "setResults b resultsMap =
     b\<lparr> ResultsMap := fold (\<lambda>(name, paths) m. Map_set m name paths) resultsMap (ResultsMap b) \<rparr>"

definition stripPrecedence :: "'c VinylExtension \<Rightarrow> 'c Vinyl" where
  "stripPrecedence file = \<lparr> path = path file, contents = contents file \<rparr>"

definition pushResolved :: "('c, 'x, 'f, 'e) Bundler \<Rightarrow> ('c, 'x, 'f, 'e) Bundler" where
  "pushResolved b =
     (pushChunks b
        (map (\<lambda>(virtualPath, file). VinylChunk (stripPrecedence file)) (ResolvedFiles b)))
     \<lparr> ResolvedFiles := [] \<rparr>"

definition Bundler_flush ::
  "string \<Rightarrow> ('c, 'x, 'f, 'e) processor \<Rightarrow> ('c, 'x, 'f, 'e) Bundler \<Rightarrow>
   ('c, 'x, 'f, 'e) Bundler" where
  "Bundler_flush PluginName BundlesProcessor b =
     (case BundlesProcessor (ResolvedFiles b) (ScriptBundles b) (Scripts (Bundlers b)) of
        Inl error \<Rightarrow> callback b (Some (PluginError PluginName error))
      | Inr (chunks, resultsMap) \<Rightarrow>
          (let b1 = setResults (pushChunks b chunks) resultsMap in
           (case BundlesProcessor (ResolvedFiles b1) (StyleBundles b1) (Styles (Bundlers b1)) of
              Inl error \<Rightarrow> callback b1 (Some (PluginError PluginName error))
            | Inr (chunks', resultsMap') \<Rightarrow>
                callback (pushResolved (setResults (pushChunks b1 chunks') resultsMap')) None)))"

section \<open>The configuration model\<close>

text \<open>
  Modelled from the spec: \<open>ConfigModel\<close> (\<open>lib/model/config\<close>), whose code is not among
  the sources; only its unit test is. Configurations are JavaScript object literals:
  booleans, strings, sequences, and objects whose keys keep their insertion order. A
  \<open>ConfigModel\<close> holds the \<open>bundle\<close> and \<open>copy\<close> values of its source.
\<close>

datatype json = JBool bool | JStr string | JArr "json list" | JObj "(string \<times> json) list"

fun hasKey :: "string \<Rightarrow> json \<Rightarrow> bool" where
  "hasKey k (JObj members) = (k \<in> set (map fst members))"
| "hasKey k v = False"

fun getKey :: "string \<Rightarrow> json \<Rightarrow> json option" where
  "getKey k (JObj members) = map_of members k"
| "getKey k v = None"

datatype ConfigurationShapeError = ConfigurationShapeError string

definition shapeMessage :: string where
  "shapeMessage =
     ''Configuration file should be in the form '' @ [CHR 0x22] @
     ''{ bundle: {}, copy: {} }'' @ [CHR 0x22]"

record ConfigModel =
  config_bundle :: "json option"
  config_copy :: "json option"

text \<open>
  Modelled from the spec: the constructor of \<open>ConfigModel\<close>, whose code is not among the
  sources. It receives the resolved source (\<open>None\<close> when no source was given) and
  "fails with ConfigurationShapeError if, after resolving source, the result lacks both
  a bundle key and a copy key". The unit test gives the message and agrees: it
  constructs a model from a configuration that has a \<open>bundle\<close> key and no \<open>copy\<close> key.
  Reading a configuration out of a source file and the \<open>base\<close> directory are left out.
\<close>

definition construct :: "json option \<Rightarrow> ConfigurationShapeError + ConfigModel" where
  "construct source =
     (case source of
        None \<Rightarrow> Inl (ConfigurationShapeError shapeMessage)
      | Some config \<Rightarrow>
          if \<not> hasKey ''bundle'' config \<and> \<not> hasKey ''copy'' config
            then Inl (ConfigurationShapeError shapeMessage)
          else Inr \<lparr> config_bundle = getKey ''bundle'' config,
                     config_copy = getKey ''copy'' config \<rparr>)"

text \<open>
  Modelled from the spec: \<open>getAllEnvironments\<close>, whose code is not among the sources.
  "An options entry contributes environment names as follows: boolean values contribute
  nothing; a single string contributes that one name; a sequence of strings contributes
  each name in sequence order" (\<open>entryEnvironments\<close>, over the entries of an options
  mapping: \<open>optionsEnvironments\<close>). The names come from "any options value anywhere
  under bundle": \<open>nestedEnvironments\<close> descends depth-first through a value and collects
  from every \<open>options\<close> field it meets. "Traversal order across bundles follows the
  bundle mapping's insertion order, and within a bundle, scripts/styles/options fields
  are inspected in that order" (\<open>bundleEnvironments\<close>, \<open>referencedEnvironments\<close>).
  The result lists each name once, where it is first seen (\<open>firstSeen\<close>).
\<close>

fun stringItems :: "json list \<Rightarrow> string list" where
  "stringItems [] = []"
| "stringItems (JStr s # items) = s # stringItems items"
| "stringItems (v # items) = stringItems items"

fun entryEnvironments :: "json \<Rightarrow> string list" where
  "entryEnvironments (JBool flag) = []"
| "entryEnvironments (JStr name) = [name]"
| "entryEnvironments (JArr items) = stringItems items"
| "entryEnvironments (JObj members) = []"

fun optionsEnvironments :: "json \<Rightarrow> string list" where
  "optionsEnvironments (JObj entries) = concat (map (\<lambda>entry. entryEnvironments (snd entry)) entries)"
| "optionsEnvironments v = []"

fun nestedEnvironments :: "json \<Rightarrow> string list"
  and nestedInItems :: "json list \<Rightarrow> string list"
  and nestedInFields :: "(string \<times> json) list \<Rightarrow> string list" where
  "nestedEnvironments (JBool flag) = []"
| "nestedEnvironments (JStr s) = []"
| "nestedEnvironments (JArr items) = nestedInItems items"
| "nestedEnvironments (JObj members) = nestedInFields members"
| "nestedInItems [] = []"
| "nestedInItems (v # items) = nestedEnvironments v @ nestedInItems items"
| "nestedInFields [] = []"
| "nestedInFields ((k, v) # members) =
     (if k = ''options'' then optionsEnvironments v else nestedEnvironments v)
     @ nestedInFields members"

definition inspectField :: "string \<Rightarrow> (json \<Rightarrow> string list) \<Rightarrow> json \<Rightarrow> string list" where
  "inspectField k collect bundleDef = (case getKey k bundleDef of None \<Rightarrow> [] | Some v \<Rightarrow> collect v)"

definition bundleEnvironments :: "json \<Rightarrow> string list" where
  "bundleEnvironments bundleDef =
     inspectField ''scripts'' nestedEnvironments bundleDef @
     inspectField ''styles'' nestedEnvironments bundleDef @
     inspectField ''options'' optionsEnvironments bundleDef"

definition referencedEnvironments :: "ConfigModel \<Rightarrow> string list" where
  "referencedEnvironments model =
     (case config_bundle model of
        Some (JObj bundleDefs) \<Rightarrow> concat (map (\<lambda>entry. bundleEnvironments (snd entry)) bundleDefs)
      | _ \<Rightarrow> [])"

fun firstSeen :: "string list \<Rightarrow> string list \<Rightarrow> string list" where
  "firstSeen seen [] = seen"
| "firstSeen seen (name # names) =
     firstSeen (if name \<in> set seen then seen else seen @ [name]) names"

definition getAllEnvironments :: "ConfigModel \<Rightarrow> string list" where
  "getAllEnvironments model = firstSeen [] (referencedEnvironments model)"

section \<open>Sample inputs\<close>

text \<open>
  The two configurations of the unit test \<open>should get all environments\<close>.
\<close>

definition complexConfig :: json where
  "complexConfig = JObj
     [(''bundle'', JObj
        [(''vendor'', JObj
           [(''scripts'', JArr
               [JObj [(''src'', JStr ''./bower_components/jquery/jquery.js''),
                      (''minSrc'', JStr ''./bower_components/jquery/jquery.min.js'')],
                JStr ''./bower_components/spin/spin.js'']),
            (''styles'', JObj
               [(''src'', JStr ''./bower_components/bootstrap/dist/css/bootstrap.css''),
                (''minSrc'', JStr ''./bower_components/bootstrap/dist/css/bootstrap.min.css'')]),
            (''options'', JObj
               [(''useMin'', JArr [JStr ''production'', JStr ''staging'']),
                (''uglify'', JBool False),
                (''rev'', JBool True)])]),
         (''article'', JObj
           [(''scripts'', JStr ''./lib/article/**/*.js''),
            (''styles'', JStr ''./lib/article/**/*.less''),
            (''options'', JObj
               [(''uglify'', JStr ''production''),
                (''rev'', JArr [JStr ''production'', JStr ''staging''])])]),
         (''main'', JObj
           [(''scripts'', JArr [JStr ''./js/controllers.js'']),
            (''styles'', JArr [JStr ''./styles/**/*.css'']),
            (''options'', JObj
               [(''uglify'', JArr [JStr ''production'', JStr ''staging'', JStr ''sat'']),
                (''rev'', JStr ''development'')])])]),
      (''copy'', JArr
        [JObj [(''src'', JStr ''./bower_components/bootstrap/dist/fonts/**/*.*''),
               (''base'', JStr ''./bower_components/bootstrap/dist/'')],
         JStr ''./images/**/*.*''])]"

definition noEnvConfig :: json where
  "noEnvConfig = JObj
     [(''bundle'', JObj
        [(''main'', JObj [(''scripts'', JStr ''*.js'')]),
         (''options'', JObj [(''uglify'', JBool False), (''rev'', JBool True)])])]"

text \<open>
  A bundling back end for sample runs, with a file extension in the place of a
  factory: every bundle yields one file, named after the bundle, that joins the
  contents of the bundle's files; a path with no file in the table is a fault.
\<close>

definition sampleProcessor :: "(string, string, string, string) processor" where
  "sampleProcessor files registry ext =
     (case filter (\<lambda>p. \<not> Map_has files p) (concat (map snd registry)) of
        p # ps \<Rightarrow> Inl (Error (''No file could be resolved for '' @ p))
      | [] \<Rightarrow>
          Inr (map (\<lambda>(name, paths).
                      VinylChunk \<lparr> path = ''/out/'' @ name @ ext,
                                   contents = concat (map (\<lambda>p. contents (the (Map_get files p))) paths) \<rparr>)
                   registry,
               map (\<lambda>(name, paths). (name, [''/out/'' @ name @ ext])) registry))"

text \<open>
  A project in \<open>/proj\<close>: one bundle \<open>main\<close> with a script and a style sheet, and one
  path transform that lets \<open>/proj/b\<close> override \<open>/proj/a\<close>.
\<close>

definition sampleConfig :: RawConfig where
  "sampleConfig =
     \<lparr> PathTransformBasePath = None,
       RawPathTransforms = Some [(''b'', ''a'')],
       BundlesBasePath = None,
       bundles = Some [(''main'', \<lparr> scripts = Some [''a/app.js''], styles = Some [''a/app.css''] \<rparr>)] \<rparr>"

definition sampleBundler :: "(string, string, string, string) Bundler" where
  "sampleBundler = Bundler_new ''/proj'' sampleConfig \<lparr> Scripts = ''.js'', Styles = ''.css'' \<rparr>"

definition sampleChunks :: "(string, string) chunk list" where
  "sampleChunks =
     [VinylChunk \<lparr> path = ''/proj/a/app.js'', contents = ''script'' \<rparr>,
      OtherChunk ''note'',
      VinylChunk \<lparr> path = ''/proj/a/app.css'', contents = ''style'' \<rparr>]"

definition sampleStreamed :: "(string, string, string, string) Bundler" where
  "sampleStreamed =
     foldl (Bundler_transform ''gulp-bundle-assets'' ''/proj'') sampleBundler sampleChunks"

text \<open>
  Three files that claim the virtual path \<open>/a/app.js\<close>: two of precedence 0 and one of
  precedence 1.
\<close>

definition appFirst :: "string VinylExtension" where
  "appFirst = \<lparr> path = ''/a/app.js'', contents = ''first'', Precedence = 0 \<rparr>"

definition appSecond :: "string VinylExtension" where
  "appSecond = \<lparr> path = ''/a/app.js'', contents = ''second'', Precedence = 0 \<rparr>"

definition appOverride :: "string VinylExtension" where
  "appOverride = \<lparr> path = ''/a/app.js'', contents = ''override'', Precedence = 1 \<rparr>"

text \<open>
  Two rules, the second of which lets \<open>/proj/b\<close> override \<open>/proj/a\<close>; a file under
  \<open>/proj/b\<close> and the file under \<open>/proj/a\<close> it collides with; a Vinyl object without a
  path; a bundler without rules and bundles; and the sample bundler after it was given
  the script alone.
\<close>

definition sampleRules :: "(string \<times> string) list" where
  "sampleRules = [(''/proj/c'', ''/proj/d''), (''/proj/b'', ''/proj/a'')]"

definition overrideFile :: "string Vinyl" where
  "overrideFile = \<lparr> path = ''/proj/b/app.js'', contents = ''override'' \<rparr>"

definition plainFile :: "string Vinyl" where
  "plainFile = \<lparr> path = ''/proj/a/app.js'', contents = ''plain'' \<rparr>"

definition orphanChunk :: "(string, string) chunk" where
  "orphanChunk = PathlessVinyl ''orphan''"




section \<open>Properties of the \<open>Map\<close> operations\<close>

lemma Map_get_Map_set:
  "Map_get (Map_set m k v) k' = (if k' = k then Some v else Map_get m k')"
  by (induction m) (auto simp: Map_get_def)

lemma Map_has_iff_get: "Map_has m k \<longleftrightarrow> Map_get m k \<noteq> None"
  by (induction m) (auto simp: Map_has_def Map_get_def)

lemma Map_set_absent: "\<not> Map_has m k \<Longrightarrow> Map_set m k v = m @ [(k, v)]"
  by (induction m) (auto simp: Map_has_def)

lemma Map_keys_Map_set:
  "Map_keys (Map_set m k v) = (if Map_has m k then Map_keys m else Map_keys m @ [k])"
  by (induction m) (force simp: Map_has_def Map_keys_def)+

lemma Map_set_twice: "Map_set (Map_set m k v) k w = Map_set m k w"
  by (induction m) auto

lemma distinct_Map_set: "distinct (Map_keys m) \<Longrightarrow> distinct (Map_keys (Map_set m k v))"
  by (simp add: Map_keys_Map_set) (simp add: Map_has_def Map_keys_def)

lemma filter_absent_key: "k \<notin> set (map fst m) \<Longrightarrow> filter (\<lambda>e. fst e = k) m = []"
  by (induction m) auto

lemma one_entry_per_key:
  "distinct (Map_keys m) \<Longrightarrow> Map_has m k \<Longrightarrow> length (filter (\<lambda>e. fst e = k) m) = 1"
proof (induction m)
  case Nil
  then show ?case by (simp add: Map_has_def)
next
  case (Cons e m)
  show ?case
  proof (cases "fst e = k")
    case True
    with Cons.prems(1) have "filter (\<lambda>e. fst e = k) m = []"
      by (intro filter_absent_key) (simp add: Map_keys_def)
    with True show ?thesis by simp
  next
    case False
    with Cons show ?thesis by (simp add: Map_keys_def Map_has_def)
  qed
qed

section \<open>The virtual file table\<close>

lemma upsert_alt:
  "upsert t f =
     (case Map_get t (path f) of
        None \<Rightarrow> Map_set t (path f) f
      | Some g \<Rightarrow> if Precedence g < Precedence f then Map_set t (path f) f else t)"
  by (auto simp: upsert_def Map_has_iff_get split: option.splits)

lemma upsert_get_same:
  "Map_get (upsert t f) (path f) =
     Some (case Map_get t (path f) of
             None \<Rightarrow> f
           | Some g \<Rightarrow> if Precedence g < Precedence f then f else g)"
  by (auto simp: upsert_def Map_has_iff_get Map_get_Map_set split: option.splits)

lemma upsert_get_other: "k \<noteq> path f \<Longrightarrow> Map_get (upsert t f) k = Map_get t k"
  by (simp add: upsert_def Map_get_Map_set)

lemma upsert_keys:
  "Map_keys (upsert t f) = (if Map_has t (path f) then Map_keys t else Map_keys t @ [path f])"
  by (simp add: upsert_def Map_keys_Map_set)

lemma upsert_has: "Map_has (upsert t f) (path f)"
  by (simp add: Map_has_iff_get upsert_get_same)

lemma upsert_distinct: "distinct (Map_keys t) \<Longrightarrow> distinct (Map_keys (upsert t f))"
  by (simp add: upsert_def distinct_Map_set)

lemma upsert_foldl_distinct:
  "distinct (Map_keys t) \<Longrightarrow> distinct (Map_keys (foldl upsert t fs))"
  by (induction fs arbitrary: t) (simp_all add: upsert_distinct)

text \<open>
  After a file was presented, a second file for the same path that does not have a
  greater precedence changes nothing; one that has a greater precedence makes the
  first one irrelevant.
\<close>

lemma upsert_absorb:
  assumes "path f' = path f" and "Precedence f' \<le> Precedence f"
  shows "upsert (upsert t f) f' = upsert t f"
proof -
  obtain g where g: "Map_get (upsert t f) (path f) = Some g" and "Precedence f \<le> Precedence g"
    by (auto simp: upsert_get_same split: option.splits)
  with assms have "\<not> Precedence g < Precedence f'" by simp
  with g assms(1) show ?thesis
    by (simp add: upsert_def[of "upsert t f" f'] Map_has_iff_get)
qed

lemma upsert_raise:
  assumes "path f1 = path f2" and "Precedence f1 < Precedence f2"
  shows "upsert (upsert t f1) f2 = upsert t f2"
  using assms
  by (auto simp: upsert_alt Map_get_Map_set Map_set_twice split: option.splits)

text \<open>
  Claim C1. Presenting a file \<open>f\<close> to the table \<open>t\<close>: afterwards the entry at the
  file's path is \<open>f\<close> when the path was free, \<open>f\<close> when the incumbent's precedence is
  strictly smaller, and the incumbent otherwise; every other path keeps its entry; a
  file that does not win leaves the whole table as it was; a path that was occupied
  keeps its place in the iteration order and a free one is appended. Presenting a file
  of the same path and precedence again changes nothing, so the first stays; the keys
  stay distinct, the path holds exactly one entry, and a table built from the empty
  one by any run of upserts never holds two entries for one path.
\<close>

theorem upsert_by_precedence:
  "Map_get (upsert t f) (path f) =
     Some (case Map_get t (path f) of
             None \<Rightarrow> f
           | Some g \<Rightarrow> if Precedence g < Precedence f then f else g)
   \<and> (\<forall>k. k \<noteq> path f \<longrightarrow> Map_get (upsert t f) k = Map_get t k)
   \<and> (\<forall>g. Map_get t (path f) = Some g \<and> \<not> Precedence g < Precedence f \<longrightarrow> upsert t f = t)
   \<and> Map_keys (upsert t f) = (if Map_has t (path f) then Map_keys t else Map_keys t @ [path f])
   \<and> (\<forall>f'. path f' = path f \<and> Precedence f' = Precedence f \<longrightarrow>
          upsert (upsert t f) f' = upsert t f)
   \<and> (distinct (Map_keys t) \<longrightarrow>
          distinct (Map_keys (upsert t f)) \<and>
          length (filter (\<lambda>e. fst e = path f) (upsert (upsert t f) f)) = 1)
   \<and> distinct (Map_keys (foldl upsert [] fs))"
proof -
  have discard: "\<forall>g. Map_get t (path f) = Some g \<and> \<not> Precedence g < Precedence f \<longrightarrow> upsert t f = t"
    by (simp add: upsert_alt)
  have again: "\<forall>f'. path f' = path f \<and> Precedence f' = Precedence f \<longrightarrow>
      upsert (upsert t f) f' = upsert t f"
    by (simp add: upsert_absorb)
  have once: "distinct (Map_keys t) \<longrightarrow>
      distinct (Map_keys (upsert t f)) \<and>
      length (filter (\<lambda>e. fst e = path f) (upsert (upsert t f) f)) = 1"
    by (simp add: upsert_absorb upsert_distinct upsert_has one_entry_per_key)
  have built: "distinct (Map_keys (foldl upsert [] fs))"
    by (rule upsert_foldl_distinct) (simp add: Map_keys_def)
  from discard again once built show ?thesis
    by (simp add: upsert_get_same upsert_get_other upsert_keys)
qed

theorem upsert_by_precedence_witness:
  "upsert [] appFirst = [(''/a/app.js'', appFirst)]
   \<and> upsert (upsert [] appFirst) appSecond = [(''/a/app.js'', appFirst)]
   \<and> Map_get (upsert (upsert [] appFirst) appOverride) ''/a/app.js'' = Some appOverride
   \<and> length (filter (\<lambda>e. fst e = ''/a/app.js'') (upsert (upsert [] appFirst) appFirst)) = 1"
  using upsert_by_precedence [of "[]" appFirst "[]"]
    upsert_by_precedence [of "upsert [] appFirst" appOverride "[]"]
  by (simp add: appFirst_def appSecond_def appOverride_def upsert_def Map_has_def Map_get_def
      Map_keys_def)

text \<open>
  Claim C5. Two files \<open>f1\<close> and \<open>f2\<close> of one virtual path with precedences
  \<open>p1 < p2\<close>: presenting them in either order gives the same table, the table that
  presenting \<open>f2\<close> alone gives. Wherever the path was free or held by a file of
  precedence below \<open>p2\<close> the table then holds \<open>f2\<close> at it; on the empty table both
  orders end with \<open>f2\<close> as the only entry.
\<close>

theorem override_either_order:
  assumes "path f1 = path f2" and "Precedence f1 < Precedence f2"
  shows "upsert (upsert t f1) f2 = upsert (upsert t f2) f1
       \<and> upsert (upsert t f1) f2 = upsert t f2
       \<and> ((\<forall>g. Map_get t (path f2) = Some g \<longrightarrow> Precedence g < Precedence f2) \<longrightarrow>
            Map_get (upsert (upsert t f1) f2) (path f2) = Some f2 \<and>
            Map_get (upsert (upsert t f2) f1) (path f2) = Some f2)
       \<and> upsert (upsert [] f1) f2 = [(path f2, f2)]
       \<and> upsert (upsert [] f2) f1 = [(path f2, f2)]"
proof -
  have up: "upsert (upsert t f1) f2 = upsert t f2" for t
    using assms by (rule upsert_raise)
  have down: "upsert (upsert t f2) f1 = upsert t f2" for t
    using assms by (intro upsert_absorb) simp_all
  have wins: "(\<forall>g. Map_get t (path f2) = Some g \<longrightarrow> Precedence g < Precedence f2) \<longrightarrow>
      Map_get (upsert t f2) (path f2) = Some f2"
    by (auto simp: upsert_get_same split: option.splits)
  have fresh: "upsert [] f2 = [(path f2, f2)]"
    by (simp add: upsert_def Map_has_def)
  have "upsert (upsert t f1) f2 = upsert (upsert t f2) f1"
    by (simp only: up down)
  moreover have "(\<forall>g. Map_get t (path f2) = Some g \<longrightarrow> Precedence g < Precedence f2) \<longrightarrow>
      Map_get (upsert (upsert t f1) f2) (path f2) = Some f2 \<and>
      Map_get (upsert (upsert t f2) f1) (path f2) = Some f2"
    using wins by (simp only: up down) simp
  moreover have "upsert (upsert [] f1) f2 = [(path f2, f2)]"
    by (rule trans [OF up fresh])
  moreover have "upsert (upsert [] f2) f1 = [(path f2, f2)]"
    by (rule trans [OF down fresh])
  ultimately show ?thesis
    using up [of t] by blast
qed

theorem override_either_order_witness:
  "path appFirst = path appOverride \<and> Precedence appFirst < Precedence appOverride
   \<and> upsert (upsert [] appFirst) appOverride = [(''/a/app.js'', appOverride)]
   \<and> upsert (upsert [] appOverride) appFirst = [(''/a/app.js'', appOverride)]"
proof -
  have same: "path appFirst = path appOverride"
    by (simp add: appFirst_def appOverride_def)
  have less: "Precedence appFirst < Precedence appOverride"
    by (simp add: appFirst_def appOverride_def)
  from override_either_order [OF same less, of "[]"] same less show ?thesis
    by (simp add: appOverride_def)
qed

section \<open>Virtual paths\<close>

lemma StringIndexOf_prefix:
  "startsWith s pat \<Longrightarrow> StringIndexOf s pat = Some ([], drop (length pat) s)"
  by (cases s) (auto simp: startsWith_def)

lemma GetSubstitution_literal:
  "CHR ''$'' \<notin> set template \<Longrightarrow> GetSubstitution matched preceding following template = template"
  by (induction matched preceding following template rule: GetSubstitution.induct) auto

lemma String_replace_prefix:
  assumes "startsWith s old"
  shows "String_replace s old new =
         GetSubstitution old [] (drop (length old) s) new @ drop (length old) s"
  using assms by (simp add: String_replace_def StringIndexOf_prefix)

lemma String_replace_prefix_literal:
  assumes "startsWith s old" and "CHR ''$'' \<notin> set new"
  shows "String_replace s old new = new @ drop (length old) s"
  using assms by (simp add: String_replace_prefix GetSubstitution_literal)

lemma loop_no_match:
  "list_all (\<lambda>r. \<not> startsWith p (fst r)) rules \<Longrightarrow>
   ResolveVirtualPath_loop cwd p (enumerate n rules) = (p, 0)"
  by (induction rules arbitrary: n) auto

lemma loop_first_match:
  assumes "i < length rules"
    and "startsWith p (fst (rules ! i))"
    and "\<forall>j<i. \<not> startsWith p (fst (rules ! j))"
  shows "ResolveVirtualPath_loop cwd p (enumerate n rules) =
         (resolvePath cwd (String_replace p (fst (rules ! i)) (snd (rules ! i))), n + i)"
  using assms
proof (induction rules arbitrary: n i)
  case Nil
  then show ?case by simp
next
  case (Cons r rules)
  obtain old new where r: "r = (old, new)" by (cases r)
  show ?case
  proof (cases i)
    case 0
    with Cons.prems r show ?thesis by simp
  next
    case (Suc k)
    with Cons.prems have "\<not> startsWith p old" using r by auto
    moreover from Cons.prems Suc have "k < length rules" "startsWith p (fst (rules ! k))"
      "\<forall>j<k. \<not> startsWith p (fst (rules ! j))" by auto
    ultimately show ?thesis
      using Cons.IH [of k "Suc n"] Suc r by simp
  qed
qed

lemma ResolveVirtualPath_no_match:
  "list_all (\<lambda>r. \<not> startsWith p (fst r)) rules \<Longrightarrow> ResolveVirtualPath cwd rules p = (p, 0)"
  by (simp add: ResolveVirtualPath_def loop_no_match)

lemma ResolveVirtualPath_match:
  assumes "i < length rules"
    and "startsWith p (fst (rules ! i))"
    and "\<forall>j<i. \<not> startsWith p (fst (rules ! j))"
  shows "ResolveVirtualPath cwd rules p =
         (resolvePath cwd (String_replace p (fst (rules ! i)) (snd (rules ! i))), i)"
  using loop_first_match [OF assms, of cwd 0] by (simp add: ResolveVirtualPath_def)

text \<open>A path in normal form is a fixed point of \<open>path.resolve\<close>.\<close>

lemma splitSegments_nonempty: "splitSegments s \<noteq> []"
  by (induction s) (auto split: list.splits)

lemma joinSegments_Cons_Cons: "joinSegments ((c # seg) # segs) = c # joinSegments (seg # segs)"
  by (cases segs) simp_all

lemma joinSegments_empty_first:
  "segs \<noteq> [] \<Longrightarrow> joinSegments ([] # segs) = CHR ''/'' # joinSegments segs"
  by (cases segs) simp_all

lemma join_split: "joinSegments (splitSegments s) = s"
proof (induction s)
  case Nil
  show ?case by simp
next
  case (Cons c cs)
  show ?case
  proof (cases "c = CHR ''/''")
    case True
    with Cons show ?thesis
      by (simp add: joinSegments_empty_first splitSegments_nonempty)
  next
    case False
    obtain seg segs where split: "splitSegments cs = seg # segs"
      using splitSegments_nonempty [of cs] by (cases "splitSegments cs") auto
    with False Cons show ?thesis
      by (simp add: joinSegments_Cons_Cons)
  qed
qed

lemma normalizeSegments_proper:
  "list_all properSegment segs \<Longrightarrow> normalizeSegments res segs = rev res @ segs"
  by (induction segs arbitrary: res) (auto simp: properSegment_def)

lemma resolvePath_normalForm: "normalForm q \<Longrightarrow> resolvePath cwd q = q"
proof (cases q)
  case Nil
  assume "normalForm q"
  with Nil show ?thesis by simp
next
  case (Cons c rest)
  assume "normalForm q"
  with Cons have c: "c = CHR ''/''"
    and rest: "rest = [] \<or> list_all properSegment (splitSegments rest)"
    by simp_all
  have abs: "isAbsolute q"
    using Cons c by (simp add: isAbsolute_def startsWith_def)
  from rest show ?thesis
  proof
    assume "rest = []"
    with Cons c abs show ?thesis by (simp add: resolvePath_def)
  next
    assume "list_all properSegment (splitSegments rest)"
    then have "normalizeSegments [] (splitSegments rest) = splitSegments rest"
      by (simp add: normalizeSegments_proper)
    with Cons c abs show ?thesis
      by (simp add: resolvePath_def join_split)
  qed
qed

text \<open>
  Claim C3, as amended. Let rule \<open>i\<close> be the first rule whose from-prefix starts the
  path. The precedence returned is \<open>i\<close>. The path returned is not the plain
  substitution: it is \<open>path.resolve\<close> of the substituted path, so the result is
  normalised (an empty segment, a \<open>.\<close> or a \<open>..\<close> that the substitution produces is
  resolved away), and it is the substituted path itself when that is in normal form
  already; this is stated for a to-prefix without \<open>$\<close>, which \<open>replace\<close> inserts as it
  is written. When no rule's from-prefix starts the path, the path is returned
  unmodified with precedence 0.
\<close>

theorem ResolveVirtualPath_first_match:
  "(\<forall>i. i < length rules \<and> startsWith p (fst (rules ! i)) \<and>
         (\<forall>j<i. \<not> startsWith p (fst (rules ! j))) \<longrightarrow>
       snd (ResolveVirtualPath cwd rules p) = i \<and>
       (CHR ''$'' \<notin> set (snd (rules ! i)) \<longrightarrow>
          fst (ResolveVirtualPath cwd rules p) =
            resolvePath cwd (snd (rules ! i) @ drop (length (fst (rules ! i))) p) \<and>
          (normalForm (snd (rules ! i) @ drop (length (fst (rules ! i))) p) \<longrightarrow>
             fst (ResolveVirtualPath cwd rules p) =
               snd (rules ! i) @ drop (length (fst (rules ! i))) p)))
   \<and> (list_all (\<lambda>r. \<not> startsWith p (fst r)) rules \<longrightarrow> ResolveVirtualPath cwd rules p = (p, 0))"
proof (intro conjI allI impI)
  fix i
  assume m: "i < length rules \<and> startsWith p (fst (rules ! i)) \<and>
    (\<forall>j<i. \<not> startsWith p (fst (rules ! j)))"
  then have r: "ResolveVirtualPath cwd rules p =
      (resolvePath cwd (String_replace p (fst (rules ! i)) (snd (rules ! i))), i)"
    by (intro ResolveVirtualPath_match) simp_all
  then show "snd (ResolveVirtualPath cwd rules p) = i" by simp
  assume "CHR ''$'' \<notin> set (snd (rules ! i))"
  with m r show resolved: "fst (ResolveVirtualPath cwd rules p) =
      resolvePath cwd (snd (rules ! i) @ drop (length (fst (rules ! i))) p)"
    by (simp add: String_replace_prefix_literal)
  assume "normalForm (snd (rules ! i) @ drop (length (fst (rules ! i))) p)"
  with resolved show "fst (ResolveVirtualPath cwd rules p) =
      snd (rules ! i) @ drop (length (fst (rules ! i))) p"
    by (simp add: resolvePath_normalForm)
next
  assume "list_all (\<lambda>r. \<not> startsWith p (fst r)) rules"
  then show "ResolveVirtualPath cwd rules p = (p, 0)"
    by (rule ResolveVirtualPath_no_match)
qed

theorem ResolveVirtualPath_first_match_witness:
  "ResolveVirtualPath ''/proj'' sampleRules ''/proj/b/app.js'' = (''/proj/a/app.js'', 1)
   \<and> ResolveVirtualPath ''/proj'' sampleRules ''/proj/x/app.js'' = (''/proj/x/app.js'', 0)"
proof -
  have hit: "1 < length sampleRules \<and> startsWith ''/proj/b/app.js'' (fst (sampleRules ! 1)) \<and>
      (\<forall>j<1. \<not> startsWith ''/proj/b/app.js'' (fst (sampleRules ! j)))"
    by (simp add: sampleRules_def startsWith_def)
  have plain: "CHR ''$'' \<notin> set (snd (sampleRules ! 1))"
    by (simp add: sampleRules_def)
  have miss: "list_all (\<lambda>r. \<not> startsWith ''/proj/x/app.js'' (fst r)) sampleRules"
    by (simp add: sampleRules_def startsWith_def)
  have normal:
    "normalForm (snd (sampleRules ! 1) @ drop (length (fst (sampleRules ! 1))) ''/proj/b/app.js'')"
    by code_simp
  have target:
    "snd (sampleRules ! 1) @ drop (length (fst (sampleRules ! 1))) ''/proj/b/app.js''
     = ''/proj/a/app.js''"
    by code_simp
  from ResolveVirtualPath_first_match [of sampleRules "''/proj/b/app.js''" "''/proj''"]
    hit plain normal
  have "snd (ResolveVirtualPath ''/proj'' sampleRules ''/proj/b/app.js'') = 1"
    and "fst (ResolveVirtualPath ''/proj'' sampleRules ''/proj/b/app.js'') =
      snd (sampleRules ! 1) @ drop (length (fst (sampleRules ! 1))) ''/proj/b/app.js''"
    by blast+
  with target
  have "ResolveVirtualPath ''/proj'' sampleRules ''/proj/b/app.js'' = (''/proj/a/app.js'', 1)"
    by (simp add: prod_eq_iff)
  moreover
  from ResolveVirtualPath_first_match [of sampleRules "''/proj/x/app.js''" "''/proj''"] miss
  have "ResolveVirtualPath ''/proj'' sampleRules ''/proj/x/app.js'' = (''/proj/x/app.js'', 0)"
    by blast
  ultimately show ?thesis by simp
qed

text \<open>
  The plain substitution is not what is returned. With the rule \<open>/b\<close> to \<open>/\<close>, the
  path \<open>/b/app.js\<close> has the substituted form \<open>//app.js\<close> and is resolved to
  \<open>/app.js\<close>. With the to-prefix \<open>/a/$&\<close>, \<open>replace\<close> expands \<open>$&\<close> to the matched
  from-prefix, and the result is \<open>/a/b/app.js\<close>, not \<open>/a/$&/app.js\<close>.
\<close>

theorem ResolveVirtualPath_substitution_counterexample:
  "startsWith ''/b/app.js'' ''/b''
   \<and> ResolveVirtualPath ''/proj'' [(''/b'', ''/'')] ''/b/app.js'' = (''/app.js'', 0)
   \<and> ''/'' @ drop (length ''/b'') ''/b/app.js'' = ''//app.js''
   \<and> fst (ResolveVirtualPath ''/proj'' [(''/b'', ''/'')] ''/b/app.js'') \<noteq>
       ''/'' @ drop (length ''/b'') ''/b/app.js''
   \<and> ResolveVirtualPath ''/proj'' [(''/b'', ''/a/$&'')] ''/b/app.js'' = (''/a/b/app.js'', 0)
   \<and> fst (ResolveVirtualPath ''/proj'' [(''/b'', ''/a/$&'')] ''/b/app.js'') \<noteq>
       ''/a/$&'' @ drop (length ''/b'') ''/b/app.js''"
  by code_simp

section \<open>Per-item processing\<close>

lemma callback_fields:
  "ResolvedFiles (callback b err) = ResolvedFiles b"
  "PathTransforms (callback b err) = PathTransforms b"
  "ResultsMap (callback b err) = ResultsMap b"
  "readable (callback b err) = readable b"
  "callbacks (callback b err) = callbacks b @ [err]"
  by (simp_all add: callback_def)

lemma push_fields:
  "ResolvedFiles (push b chunk) = ResolvedFiles b"
  "PathTransforms (push b chunk) = PathTransforms b"
  "ScriptBundles (push b chunk) = ScriptBundles b"
  "StyleBundles (push b chunk) = StyleBundles b"
  "Bundlers (push b chunk) = Bundlers b"
  "ResultsMap (push b chunk) = ResultsMap b"
  "readable (push b chunk) = readable b @ [chunk]"
  "callbacks (push b chunk) = callbacks b"
  by (simp_all add: push_def)

lemma extendChunk_fields:
  "path (extendChunk c vp n) = vp" "Precedence (extendChunk c vp n) = n"
  by (simp_all add: extendChunk_def)

lemma transform_other:
  "Bundler_transform PN cwd b (OtherChunk x) = callback (push b (OtherChunk x)) None"
  by (simp add: Bundler_transform_def)

lemma transform_vinyl:
  "Bundler_transform PN cwd b (VinylChunk c) =
     callback (b\<lparr> ResolvedFiles := upsert (ResolvedFiles b)
        (extendChunk c (fst (ResolveVirtualPath cwd (PathTransforms b) (path c)))
                       (snd (ResolveVirtualPath cwd (PathTransforms b) (path c)))) \<rparr>) None"
  by (simp add: Bundler_transform_def split: prod.splits)

lemma transform_table:
  "ResolvedFiles (Bundler_transform PN cwd b (VinylChunk c)) =
     upsert (ResolvedFiles b)
       (extendChunk c (fst (ResolveVirtualPath cwd (PathTransforms b) (path c)))
                      (snd (ResolveVirtualPath cwd (PathTransforms b) (path c))))"
  by (simp add: transform_vinyl callback_fields)

lemma transform_pathless:
  "Bundler_transform PN cwd b (PathlessVinyl d) =
     callback b (Some (PluginError PN (undefinedPathFault (PathTransforms b))))"
  by (simp add: Bundler_transform_def)

lemma transform_readable:
  "readable (Bundler_transform PN cwd b chunk) = readable b @ (if isVinyl chunk then [] else [chunk])"
  by (cases chunk)
    (simp_all add: transform_other transform_vinyl transform_pathless callback_fields push_fields)

lemma transform_PathTransforms:
  "PathTransforms (Bundler_transform PN cwd b chunk) = PathTransforms b"
  by (cases chunk)
    (simp_all add: transform_other transform_vinyl transform_pathless callback_fields push_fields)

lemma transform_callbacks_file:
  "callbacks (Bundler_transform PN cwd b (VinylChunk c)) = callbacks b @ [None]"
  by (simp add: transform_vinyl callback_fields)




lemma stream_readable:
  "readable (foldl (Bundler_transform PN cwd) b chunks) =
     readable b @ filter (\<lambda>chunk. \<not> isVinyl chunk) chunks"
  by (induction chunks arbitrary: b) (simp_all add: transform_readable)

text \<open>
  Claim C8, as amended. An item that is not a Vinyl object is pushed at once, as it
  is: it becomes the last chunk of the readable side, the table is left alone and the
  callback is called without an error. A Vinyl file with a path is not pushed: the
  readable side stays as it was, and the file is upserted under its virtual path
  \<open>vp\<close> and precedence: afterwards the table has an entry at \<open>vp\<close>, which is the file
  when \<open>vp\<close> was free or the incumbent's precedence is smaller and the incumbent
  otherwise, and \<open>vp\<close> is a new last key when it was free. A Vinyl object without a
  path is neither pushed nor stored: the table and the readable side stay as they
  were and the callback is given the wrapped fault. Over a whole streaming phase the
  readable side gains exactly the items that are not Vinyl objects, in their order of
  arrival.
\<close>

theorem transform_passes_other_chunks:
  "(let vp = fst (ResolveVirtualPath cwd (PathTransforms b) (path c));
        precedence = snd (ResolveVirtualPath cwd (PathTransforms b) (path c));
        file = extendChunk c vp precedence;
        after = Bundler_transform PN cwd b (VinylChunk c)
    in readable after = readable b
       \<and> callbacks after = callbacks b @ [None]
       \<and> ResolvedFiles after = upsert (ResolvedFiles b) file
       \<and> Map_has (ResolvedFiles after) vp
       \<and> Map_get (ResolvedFiles after) vp =
           Some (case Map_get (ResolvedFiles b) vp of
                   None \<Rightarrow> file
                 | Some g \<Rightarrow> if Precedence g < precedence then file else g)
       \<and> Map_keys (ResolvedFiles after) =
           (if Map_has (ResolvedFiles b) vp then Map_keys (ResolvedFiles b)
            else Map_keys (ResolvedFiles b) @ [vp]))
   \<and> readable (Bundler_transform PN cwd b (OtherChunk x)) = readable b @ [OtherChunk x]
   \<and> ResolvedFiles (Bundler_transform PN cwd b (OtherChunk x)) = ResolvedFiles b
   \<and> callbacks (Bundler_transform PN cwd b (OtherChunk x)) = callbacks b @ [None]
   \<and> readable (Bundler_transform PN cwd b (PathlessVinyl d)) = readable b
   \<and> ResolvedFiles (Bundler_transform PN cwd b (PathlessVinyl d)) = ResolvedFiles b
   \<and> callbacks (Bundler_transform PN cwd b (PathlessVinyl d)) =
       callbacks b @ [Some (PluginError PN (undefinedPathFault (PathTransforms b)))]
   \<and> readable (foldl (Bundler_transform PN cwd) b chunks) =
       readable b @ filter (\<lambda>chunk. \<not> isVinyl chunk) chunks"
proof -
  let ?vp = "fst (ResolveVirtualPath cwd (PathTransforms b) (path c))"
  let ?precedence = "snd (ResolveVirtualPath cwd (PathTransforms b) (path c))"
  let ?file = "extendChunk c ?vp ?precedence"
  have stored: "Map_has (upsert (ResolvedFiles b) ?file) ?vp"
    using upsert_has [of "ResolvedFiles b" ?file] by (simp add: extendChunk_fields)
  have entry: "Map_get (upsert (ResolvedFiles b) ?file) ?vp =
      Some (case Map_get (ResolvedFiles b) ?vp of
              None \<Rightarrow> ?file
            | Some g \<Rightarrow> if Precedence g < ?precedence then ?file else g)"
    using upsert_get_same [of "ResolvedFiles b" ?file]
    by (simp add: extendChunk_fields split: option.splits)
  have keys: "Map_keys (upsert (ResolvedFiles b) ?file) =
      (if Map_has (ResolvedFiles b) ?vp then Map_keys (ResolvedFiles b)
       else Map_keys (ResolvedFiles b) @ [?vp])"
    using upsert_keys [of "ResolvedFiles b" ?file] by (simp add: extendChunk_fields)
  have with_path: "readable (Bundler_transform PN cwd b (VinylChunk c)) = readable b"
    "callbacks (Bundler_transform PN cwd b (VinylChunk c)) = callbacks b @ [None]"
    "ResolvedFiles (Bundler_transform PN cwd b (VinylChunk c)) = upsert (ResolvedFiles b) ?file"
    by (simp_all add: transform_readable transform_callbacks_file transform_table)
  have other: "readable (Bundler_transform PN cwd b (OtherChunk x)) = readable b @ [OtherChunk x]"
    "ResolvedFiles (Bundler_transform PN cwd b (OtherChunk x)) = ResolvedFiles b"
    "callbacks (Bundler_transform PN cwd b (OtherChunk x)) = callbacks b @ [None]"
    by (simp_all add: transform_other callback_fields push_fields)
  have pathless: "readable (Bundler_transform PN cwd b (PathlessVinyl d)) = readable b"
    "ResolvedFiles (Bundler_transform PN cwd b (PathlessVinyl d)) = ResolvedFiles b"
    "callbacks (Bundler_transform PN cwd b (PathlessVinyl d)) =
       callbacks b @ [Some (PluginError PN (undefinedPathFault (PathTransforms b)))]"
    by (simp_all add: transform_pathless callback_fields)
  show ?thesis
    unfolding Let_def with_path other pathless stream_readable
    using stored entry keys by simp
qed

theorem transform_passes_other_chunks_witness:
  "Map_get (ResolvedFiles
       (Bundler_transform ''gulp-bundle-assets'' ''/proj'' sampleBundler (VinylChunk overrideFile)))
     ''/proj/a/app.js'' =
       Some \<lparr> path = ''/proj/a/app.js'', contents = ''override'', Precedence = 0 \<rparr>
   \<and> readable
       (Bundler_transform ''gulp-bundle-assets'' ''/proj'' sampleBundler (VinylChunk overrideFile)) = []
   \<and> readable
       (Bundler_transform ''gulp-bundle-assets'' ''/proj'' sampleBundler (OtherChunk ''note'')) =
       [OtherChunk ''note'']"
proof -
  let ?vp = "fst (ResolveVirtualPath ''/proj'' (PathTransforms sampleBundler) (path overrideFile))"
  let ?precedence = "snd (ResolveVirtualPath ''/proj'' (PathTransforms sampleBundler) (path overrideFile))"
  have vp: "?vp = ''/proj/a/app.js''" by code_simp
  have free: "Map_get (ResolvedFiles sampleBundler) ''/proj/a/app.js'' = None" by code_simp
  have entry: "extendChunk overrideFile ''/proj/a/app.js'' ?precedence =
      \<lparr> path = ''/proj/a/app.js'', contents = ''override'', Precedence = 0 \<rparr>"
    by code_simp
  have empty: "readable sampleBundler = []" by code_simp
  from transform_passes_other_chunks
    [where cwd = "''/proj''" and b = sampleBundler and c = overrideFile
       and PN = "''gulp-bundle-assets''" and x = "''note''" and d = "''orphan''"
       and chunks = "[]"]
  have "Map_get (ResolvedFiles
         (Bundler_transform ''gulp-bundle-assets'' ''/proj'' sampleBundler (VinylChunk overrideFile)))
        ''/proj/a/app.js'' =
          Some (case Map_get (ResolvedFiles sampleBundler) ''/proj/a/app.js'' of
                  None \<Rightarrow> extendChunk overrideFile ''/proj/a/app.js'' ?precedence
                | Some g \<Rightarrow>
                    if Precedence g < ?precedence
                    then extendChunk overrideFile ''/proj/a/app.js'' ?precedence else g)"
    and "readable
        (Bundler_transform ''gulp-bundle-assets'' ''/proj'' sampleBundler (VinylChunk overrideFile)) =
        readable sampleBundler"
    and "readable
        (Bundler_transform ''gulp-bundle-assets'' ''/proj'' sampleBundler (OtherChunk ''note'')) =
        readable sampleBundler @ [OtherChunk ''note'']"
    unfolding Let_def vp by blast+
  then show ?thesis
    by (simp add: free entry empty)
qed

text \<open>
  A Vinyl object without a path is a recognized file object, and it is not upserted:
  the table of the sample bundler stays empty and the fault is reported.
\<close>

theorem transform_pathless_counterexample:
  "isVinyl orphanChunk
   \<and> ResolvedFiles (Bundler_transform ''gulp-bundle-assets'' ''/proj'' sampleBundler orphanChunk) = []
   \<and> readable (Bundler_transform ''gulp-bundle-assets'' ''/proj'' sampleBundler orphanChunk) = []
   \<and> callbacks (Bundler_transform ''gulp-bundle-assets'' ''/proj'' sampleBundler orphanChunk) =
       [Some (PluginError ''gulp-bundle-assets'' TypeError)]"
  by code_simp

text \<open>
  Claim C10. A file \<open>a\<close> that matches the rule at index 0 gets precedence 0, and so
  does a file \<open>u\<close> that matches no rule. When \<open>a\<close>'s virtual path is \<open>u\<close>'s path, the
  one processed second leaves the table as the first one left it, in either order; on
  a path that was free the table thus holds whichever of the two arrived first.
\<close>

theorem rule_zero_ties_with_unmatched:
  assumes rule0: "PathTransforms b = (old, new) # rest"
    and matched: "startsWith (path a) old"
    and unmatched: "list_all (\<lambda>r. \<not> startsWith (path u) (fst r)) (PathTransforms b)"
    and collide: "fst (ResolveVirtualPath cwd (PathTransforms b) (path a)) = path u"
  shows "snd (ResolveVirtualPath cwd (PathTransforms b) (path a)) = 0
       \<and> ResolveVirtualPath cwd (PathTransforms b) (path u) = (path u, 0)
       \<and> ResolvedFiles (Bundler_transform PN cwd (Bundler_transform PN cwd b (VinylChunk a)) (VinylChunk u)) =
           ResolvedFiles (Bundler_transform PN cwd b (VinylChunk a))
       \<and> ResolvedFiles (Bundler_transform PN cwd (Bundler_transform PN cwd b (VinylChunk u)) (VinylChunk a)) =
           ResolvedFiles (Bundler_transform PN cwd b (VinylChunk u))
       \<and> (\<not> Map_has (ResolvedFiles b) (path u) \<longrightarrow>
            Map_get (ResolvedFiles (Bundler_transform PN cwd (Bundler_transform PN cwd b (VinylChunk a)) (VinylChunk u)))
              (path u) = Some (extendChunk a (path u) 0) \<and>
            Map_get (ResolvedFiles (Bundler_transform PN cwd (Bundler_transform PN cwd b (VinylChunk u)) (VinylChunk a)))
              (path u) = Some (extendChunk u (path u) 0))"
proof -
  let ?rules = "PathTransforms b"
  have h0: "0 < length ?rules" and h1: "startsWith (path a) (fst (?rules ! 0))"
    and h2: "\<forall>j<0. \<not> startsWith (path a) (fst (?rules ! j))"
    using rule0 matched by simp_all
  have "snd (ResolveVirtualPath cwd ?rules (path a)) = 0"
    using ResolveVirtualPath_match [OF h0 h1 h2, of cwd] by simp
  with collide have ra: "ResolveVirtualPath cwd ?rules (path a) = (path u, 0)"
    by (simp add: prod_eq_iff)
  have ru: "ResolveVirtualPath cwd ?rules (path u) = (path u, 0)"
    using unmatched by (rule ResolveVirtualPath_no_match)
  let ?fa = "extendChunk a (path u) 0" and ?fu = "extendChunk u (path u) 0"
  have ta: "ResolvedFiles (Bundler_transform PN cwd b' (VinylChunk a)) = upsert (ResolvedFiles b') ?fa"
    if "PathTransforms b' = ?rules" for b' :: "('a, 'b, 'c, 'd) Bundler"
    using that ra by (simp add: transform_table)
  have tu: "ResolvedFiles (Bundler_transform PN cwd b' (VinylChunk u)) = upsert (ResolvedFiles b') ?fu"
    if "PathTransforms b' = ?rules" for b' :: "('a, 'b, 'c, 'd) Bundler"
    using that ru by (simp add: transform_table)
  have au: "ResolvedFiles (Bundler_transform PN cwd (Bundler_transform PN cwd b (VinylChunk a)) (VinylChunk u)) =
      upsert (upsert (ResolvedFiles b) ?fa) ?fu"
    by (simp add: ta tu transform_PathTransforms)
  have ua: "ResolvedFiles (Bundler_transform PN cwd (Bundler_transform PN cwd b (VinylChunk u)) (VinylChunk a)) =
      upsert (upsert (ResolvedFiles b) ?fu) ?fa"
    by (simp add: ta tu transform_PathTransforms)
  have keep_a: "upsert (upsert (ResolvedFiles b) ?fa) ?fu = upsert (ResolvedFiles b) ?fa"
    by (rule upsert_absorb) (simp_all add: extendChunk_fields)
  have keep_u: "upsert (upsert (ResolvedFiles b) ?fu) ?fa = upsert (ResolvedFiles b) ?fu"
    by (rule upsert_absorb) (simp_all add: extendChunk_fields)
  have free: "\<not> Map_has (ResolvedFiles b) (path u) \<longrightarrow>
      Map_get (upsert (ResolvedFiles b) ?fa) (path u) = Some ?fa \<and>
      Map_get (upsert (ResolvedFiles b) ?fu) (path u) = Some ?fu"
    using upsert_get_same [of "ResolvedFiles b" ?fa] upsert_get_same [of "ResolvedFiles b" ?fu]
    by (simp add: extendChunk_fields Map_has_iff_get)
  from ra ru au ua keep_a keep_u free show ?thesis
    by (simp add: ta tu)
qed

theorem rule_zero_ties_with_unmatched_witness:
  "Map_get (ResolvedFiles (Bundler_transform ''gulp-bundle-assets'' ''/proj''
       (Bundler_transform ''gulp-bundle-assets'' ''/proj'' sampleBundler (VinylChunk overrideFile)) (VinylChunk plainFile)))
     ''/proj/a/app.js'' = Some \<lparr> path = ''/proj/a/app.js'', contents = ''override'', Precedence = 0 \<rparr>
   \<and> Map_get (ResolvedFiles (Bundler_transform ''gulp-bundle-assets'' ''/proj''
       (Bundler_transform ''gulp-bundle-assets'' ''/proj'' sampleBundler (VinylChunk plainFile)) (VinylChunk overrideFile)))
     ''/proj/a/app.js'' = Some \<lparr> path = ''/proj/a/app.js'', contents = ''plain'', Precedence = 0 \<rparr>"
proof -
  have rule0: "PathTransforms sampleBundler = (''/proj/b'', ''/proj/a'') # []"
    by code_simp
  have matched: "startsWith (path overrideFile) ''/proj/b''"
    by code_simp
  have unmatched: "list_all (\<lambda>r. \<not> startsWith (path plainFile) (fst r)) (PathTransforms sampleBundler)"
    by code_simp
  have collide: "fst (ResolveVirtualPath ''/proj'' (PathTransforms sampleBundler) (path overrideFile)) =
      path plainFile"
    by code_simp
  have free: "\<not> Map_has (ResolvedFiles sampleBundler) (path plainFile)"
    by code_simp
  from rule_zero_ties_with_unmatched [OF rule0 matched unmatched collide] free
  have "Map_get (ResolvedFiles (Bundler_transform ''gulp-bundle-assets'' ''/proj''
          (Bundler_transform ''gulp-bundle-assets'' ''/proj'' sampleBundler (VinylChunk overrideFile)) (VinylChunk plainFile)))
        (path plainFile) = Some (extendChunk overrideFile (path plainFile) 0)
      \<and> Map_get (ResolvedFiles (Bundler_transform ''gulp-bundle-assets'' ''/proj''
          (Bundler_transform ''gulp-bundle-assets'' ''/proj'' sampleBundler (VinylChunk plainFile)) (VinylChunk overrideFile)))
        (path plainFile) = Some (extendChunk plainFile (path plainFile) 0)"
    by blast
  moreover have "path plainFile = ''/proj/a/app.js''"
    and "extendChunk overrideFile (path plainFile) 0 =
      \<lparr> path = ''/proj/a/app.js'', contents = ''override'', Precedence = 0 \<rparr>"
    and "extendChunk plainFile (path plainFile) 0 =
      \<lparr> path = ''/proj/a/app.js'', contents = ''plain'', Precedence = 0 \<rparr>"
    by (simp_all add: extendChunk_def overrideFile_def plainFile_def)
  ultimately show ?thesis by simp
qed

section \<open>Completion processing\<close>

lemma pushChunks_fields:
  "ResolvedFiles (pushChunks b chunks) = ResolvedFiles b"
  "PathTransforms (pushChunks b chunks) = PathTransforms b"
  "ScriptBundles (pushChunks b chunks) = ScriptBundles b"
  "StyleBundles (pushChunks b chunks) = StyleBundles b"
  "Bundlers (pushChunks b chunks) = Bundlers b"
  "ResultsMap (pushChunks b chunks) = ResultsMap b"
  "readable (pushChunks b chunks) = readable b @ chunks"
  "callbacks (pushChunks b chunks) = callbacks b"
  unfolding pushChunks_def
  by (induction chunks arbitrary: b; simp add: push_fields)+

lemma setResults_fields:
  "ResolvedFiles (setResults b results) = ResolvedFiles b"
  "PathTransforms (setResults b results) = PathTransforms b"
  "ScriptBundles (setResults b results) = ScriptBundles b"
  "StyleBundles (setResults b results) = StyleBundles b"
  "Bundlers (setResults b results) = Bundlers b"
  "readable (setResults b results) = readable b"
  "callbacks (setResults b results) = callbacks b"
  by (simp_all add: setResults_def)

lemma pushResolved_fields:
  "ResolvedFiles (pushResolved b) = []"
  "ResultsMap (pushResolved b) = ResultsMap b"
  "readable (pushResolved b) =
     readable b @ map (\<lambda>(virtualPath, file). VinylChunk (stripPrecedence file)) (ResolvedFiles b)"
  "callbacks (pushResolved b) = callbacks b"
  by (simp_all add: pushResolved_def pushChunks_fields)



lemma flush_success:
  assumes "BP (ResolvedFiles b) (ScriptBundles b) (Scripts (Bundlers b)) = Inr (cs, rs)"
    and "BP (ResolvedFiles b) (StyleBundles b) (Styles (Bundlers b)) = Inr (ct, rt)"
  shows "Bundler_flush PN BP b =
         callback (pushResolved (setResults (pushChunks (setResults (pushChunks b cs) rs) ct) rt)) None"
  using assms by (simp add: Bundler_flush_def setResults_fields pushChunks_fields)


text \<open>
  Claim C4. When both passes of \<open>BundlesProcessor\<close> return, \<open>_flush\<close> appends to the
  readable side, in this order: the chunks of the scripts pass, the chunks of the
  styles pass, and every entry of the table in the table's order with its precedence
  removed. Afterwards the table is empty, and the callback was called once, without
  an error.
\<close>

theorem flush_emission_order:
  assumes "BP (ResolvedFiles b) (ScriptBundles b) (Scripts (Bundlers b)) = Inr (cs, rs)"
    and "BP (ResolvedFiles b) (StyleBundles b) (Styles (Bundlers b)) = Inr (ct, rt)"
  shows "readable (Bundler_flush PN BP b) =
           readable b @ cs @ ct @
           map (\<lambda>(virtualPath, file). VinylChunk (stripPrecedence file)) (ResolvedFiles b)
       \<and> ResolvedFiles (Bundler_flush PN BP b) = []
       \<and> callbacks (Bundler_flush PN BP b) = callbacks b @ [None]"
  by (simp add: flush_success [where BP = BP and b = b, OF assms] callback_fields
      pushResolved_fields setResults_fields pushChunks_fields)

theorem flush_emission_order_witness:
  "readable (Bundler_flush ''gulp-bundle-assets'' sampleProcessor sampleStreamed) =
     [OtherChunk ''note'',
      VinylChunk \<lparr> path = ''/out/main.js'', contents = ''script'' \<rparr>,
      VinylChunk \<lparr> path = ''/out/main.css'', contents = ''style'' \<rparr>,
      VinylChunk \<lparr> path = ''/proj/a/app.js'', contents = ''script'' \<rparr>,
      VinylChunk \<lparr> path = ''/proj/a/app.css'', contents = ''style'' \<rparr>]
   \<and> ResolvedFiles (Bundler_flush ''gulp-bundle-assets'' sampleProcessor sampleStreamed) = []"
proof -
  have s: "sampleProcessor (ResolvedFiles sampleStreamed) (ScriptBundles sampleStreamed)
      (Scripts (Bundlers sampleStreamed)) =
      Inr ([VinylChunk \<lparr> path = ''/out/main.js'', contents = ''script'' \<rparr>],
           [(''main'', [''/out/main.js''])])"
    by code_simp
  have t: "sampleProcessor (ResolvedFiles sampleStreamed) (StyleBundles sampleStreamed)
      (Styles (Bundlers sampleStreamed)) =
      Inr ([VinylChunk \<lparr> path = ''/out/main.css'', contents = ''style'' \<rparr>],
           [(''main'', [''/out/main.css''])])"
    by code_simp
  have before: "readable sampleStreamed = [OtherChunk ''note'']"
    by code_simp
  have residual:
    "map (\<lambda>(virtualPath, file). VinylChunk (stripPrecedence file)) (ResolvedFiles sampleStreamed) =
      [VinylChunk \<lparr> path = ''/proj/a/app.js'', contents = ''script'' \<rparr>,
       VinylChunk \<lparr> path = ''/proj/a/app.css'', contents = ''style'' \<rparr> :: (string, string) chunk]"
    by code_simp
  from flush_emission_order
    [where BP = sampleProcessor and b = sampleStreamed, OF s t, of "''gulp-bundle-assets''"]
  show ?thesis by (simp add: before residual)
qed



text \<open>
  Claim C2. The sample bundle \<open>main\<close> has a script and a style sheet, so both passes
  report output paths under the name \<open>main\<close>: \<open>/out/main.js\<close> from the scripts pass
  and \<open>/out/main.css\<close> from the styles pass. After \<open>_flush\<close> the entry of \<open>main\<close> in
  \<open>ResultsMap\<close> is the styles pass's list alone: \<open>ResultsMap.set\<close> replaced the list
  of the scripts pass.
\<close>

theorem flush_overwrites_script_results:
  "sampleProcessor (ResolvedFiles sampleStreamed) (ScriptBundles sampleStreamed) ''.js'' =
      Inr ([VinylChunk \<lparr> path = ''/out/main.js'', contents = ''script'' \<rparr>],
           [(''main'', [''/out/main.js''])])
   \<and> sampleProcessor (ResolvedFiles sampleStreamed) (StyleBundles sampleStreamed) ''.css'' =
      Inr ([VinylChunk \<lparr> path = ''/out/main.css'', contents = ''style'' \<rparr>],
           [(''main'', [''/out/main.css''])])
   \<and> ResultsMap (Bundler_flush ''gulp-bundle-assets'' sampleProcessor sampleStreamed) =
      [(''main'', [''/out/main.css''])]"
  by code_simp

text \<open>Copying a pass's results into \<open>ResultsMap\<close>, one \<open>set\<close> per entry.\<close>

lemma map_of_rev_distinct: "distinct (map fst rs) \<Longrightarrow> map_of (rev rs) k = map_of rs k"
proof (induction rs)
  case Nil
  show ?case by simp
next
  case (Cons r rs)
  obtain n p where r: "r = (n, p)" by (cases r)
  from Cons.prems r have "map_of rs n = None"
    by (simp add: map_of_eq_None_iff)
  with Cons r show ?case
    by (auto simp: map_add_def split: option.splits)
qed

lemma Map_get_fold_set:
  "Map_get (fold (\<lambda>(name, paths) m. Map_set m name paths) rs m) k =
     (case map_of (rev rs) k of None \<Rightarrow> Map_get m k | Some v \<Rightarrow> Some v)"
proof (induction rs arbitrary: m)
  case Nil
  show ?case by simp
next
  case (Cons r rs)
  obtain n p where r: "r = (n, p)" by (cases r)
  show ?case
    by (simp add: r Cons.IH Map_get_Map_set map_add_def split: option.splits)
qed

lemma setResults_get:
  "distinct (Map_keys rs) \<Longrightarrow>
   Map_get (ResultsMap (setResults b rs)) k =
     (case Map_get rs k of None \<Rightarrow> Map_get (ResultsMap b) k | Some v \<Rightarrow> Some v)"
  by (simp add: setResults_def Map_get_fold_set map_of_rev_distinct Map_keys_def)
     (simp add: Map_get_def)

text \<open>
  Property X1. When both passes return, the entry of a bundle name in \<open>ResultsMap\<close>
  after \<open>_flush\<close> is the list of the styles pass if that pass reports the name, else
  the list of the scripts pass if that pass reports it, else what was there before.
  The lists of the two passes are never joined.
\<close>

theorem flush_results_last_pass_wins:
  assumes "BP (ResolvedFiles b) (ScriptBundles b) (Scripts (Bundlers b)) = Inr (cs, rs)"
    and "BP (ResolvedFiles b) (StyleBundles b) (Styles (Bundlers b)) = Inr (ct, rt)"
    and "distinct (Map_keys rs)" and "distinct (Map_keys rt)"
  shows "Map_get (ResultsMap (Bundler_flush PN BP b)) name =
           (case Map_get rt name of
              Some paths \<Rightarrow> Some paths
            | None \<Rightarrow> (case Map_get rs name of
                         Some paths \<Rightarrow> Some paths
                       | None \<Rightarrow> Map_get (ResultsMap b) name))"
  using assms(3,4)
  by (simp add: flush_success [where BP = BP and b = b, OF assms(1,2)] callback_fields
      pushResolved_fields setResults_get pushChunks_fields split: option.splits)

theorem flush_results_last_pass_wins_witness:
  "Map_get (ResultsMap (Bundler_flush ''gulp-bundle-assets'' sampleProcessor sampleStreamed)) ''main'' =
     Some [''/out/main.css'']"
proof -
  have s: "sampleProcessor (ResolvedFiles sampleStreamed) (ScriptBundles sampleStreamed)
      (Scripts (Bundlers sampleStreamed)) =
      Inr ([VinylChunk \<lparr> path = ''/out/main.js'', contents = ''script'' \<rparr>],
           [(''main'', [''/out/main.js''])])"
    by code_simp
  have t: "sampleProcessor (ResolvedFiles sampleStreamed) (StyleBundles sampleStreamed)
      (Styles (Bundlers sampleStreamed)) =
      Inr ([VinylChunk \<lparr> path = ''/out/main.css'', contents = ''style'' \<rparr>],
           [(''main'', [''/out/main.css''])])"
    by code_simp
  have ds: "distinct (Map_keys [(''main'', [''/out/main.js''])])"
    and dt: "distinct (Map_keys [(''main'', [''/out/main.css''])])"
    by (simp_all add: Map_keys_def)
  from flush_results_last_pass_wins
    [where BP = sampleProcessor and b = sampleStreamed, OF s t ds dt,
     of "''gulp-bundle-assets''" "''main''"]
  show ?thesis by (simp add: Map_get_def)
qed

section \<open>Properties of the configuration model\<close>

lemma firstSeen_distinct: "distinct seen \<Longrightarrow> distinct (firstSeen seen names)"
  by (induction names arbitrary: seen) simp_all

lemma firstSeen_set: "set (firstSeen seen names) = set seen \<union> set names"
  by (induction names arbitrary: seen) auto

text \<open>
  \<open>remdups\<close> keeps the last copy of every element, so \<open>rev (remdups (rev names))\<close> is
  \<open>names\<close> with the first copy of every name kept, in the order of \<open>names\<close>.
\<close>

lemma remdups_snoc: "remdups (ys @ [x]) = filter (\<lambda>y. y \<noteq> x) (remdups ys) @ [x]"
  by (induction ys) auto

lemma first_occurrences_Cons:
  "rev (remdups (rev (x # xs))) = x # filter (\<lambda>y. y \<noteq> x) (rev (remdups (rev xs)))"
  by (simp add: remdups_snoc rev_filter)

lemma firstSeen_order:
  "firstSeen seen names = seen @ filter (\<lambda>x. x \<notin> set seen) (rev (remdups (rev names)))"
proof (induction names arbitrary: seen)
  case Nil
  show ?case by simp
next
  case (Cons x names)
  let ?first = "rev (remdups (rev names))"
  have step: "rev (remdups (rev (x # names))) = x # filter (\<lambda>y. y \<noteq> x) ?first"
    by (rule first_occurrences_Cons)
  show ?case
  proof (cases "x \<in> set seen")
    case True
    then have same: "filter (\<lambda>y. y \<notin> set seen) (filter (\<lambda>y. y \<noteq> x) ?first) =
        filter (\<lambda>y. y \<notin> set seen) ?first"
      unfolding filter_filter by (intro filter_cong) auto
    have "firstSeen seen (x # names) = firstSeen seen names"
      using True by simp
    also have "\<dots> = seen @ filter (\<lambda>y. y \<notin> set seen) ?first"
      by (rule Cons.IH)
    also have "\<dots> = seen @ filter (\<lambda>y. y \<notin> set seen) (rev (remdups (rev (x # names))))"
      unfolding step using True same by simp
    finally show ?thesis .
  next
    case False
    have same: "filter (\<lambda>y. y \<notin> set (seen @ [x])) ?first =
        filter (\<lambda>y. y \<notin> set seen) (filter (\<lambda>y. y \<noteq> x) ?first)"
      unfolding filter_filter by (intro filter_cong) auto
    have "firstSeen seen (x # names) = firstSeen (seen @ [x]) names"
      using False by simp
    also have "\<dots> = (seen @ [x]) @ filter (\<lambda>y. y \<notin> set (seen @ [x])) ?first"
      by (rule Cons.IH)
    also have "\<dots> = seen @ filter (\<lambda>y. y \<notin> set seen) (rev (remdups (rev (x # names))))"
      unfolding step same using False by simp
    finally show ?thesis .
  qed
qed

text \<open>
  Claim C6, as amended. Construction fails exactly when no source is given or the
  resolved source has neither a \<open>bundle\<close> key nor a \<open>copy\<close> key, and every failure is
  the \<open>ConfigurationShapeError\<close> with the documented message. A source with one of
  the two keys is accepted.
\<close>

theorem construct_shape_check:
  "(construct source = Inl (ConfigurationShapeError shapeMessage)) =
     (source = None \<or> (\<exists>config. source = Some config \<and>
        \<not> hasKey ''bundle'' config \<and> \<not> hasKey ''copy'' config))
   \<and> (\<forall>e. construct source = Inl e \<longrightarrow> e = ConfigurationShapeError shapeMessage)
   \<and> (\<forall>config. source = Some config \<and> (hasKey ''bundle'' config \<or> hasKey ''copy'' config) \<longrightarrow>
        construct source = Inr \<lparr> config_bundle = getKey ''bundle'' config,
                                  config_copy = getKey ''copy'' config \<rparr>)"
  by (cases source) (auto simp: construct_def)

theorem construct_shape_check_witness:
  "construct (Some (JObj [(''junk'', JObj [])])) = Inl (ConfigurationShapeError shapeMessage)
   \<and> construct None = Inl (ConfigurationShapeError shapeMessage)
   \<and> construct (Some (JObj [(''bundle'', JObj []), (''copy'', JObj [])])) =
       Inr \<lparr> config_bundle = Some (JObj []), config_copy = Some (JObj []) \<rparr>"
proof -
  have junk: "\<not> hasKey ''bundle'' (JObj [(''junk'', JObj [])]) \<and>
      \<not> hasKey ''copy'' (JObj [(''junk'', JObj [])])"
    by simp
  have both: "hasKey ''bundle'' (JObj [(''bundle'', JObj []), (''copy'', JObj [])])"
    by simp
  have keys: "getKey ''bundle'' (JObj [(''bundle'', JObj []), (''copy'', JObj [])]) = Some (JObj [])"
    "getKey ''copy'' (JObj [(''bundle'', JObj []), (''copy'', JObj [])]) = Some (JObj [])"
    by simp_all
  from construct_shape_check [of "Some (JObj [(''junk'', JObj [])])"] junk
  have "construct (Some (JObj [(''junk'', JObj [])])) = Inl (ConfigurationShapeError shapeMessage)"
    by blast
  moreover from construct_shape_check [of None]
  have "construct None = Inl (ConfigurationShapeError shapeMessage)"
    by blast
  moreover
  from construct_shape_check [of "Some (JObj [(''bundle'', JObj []), (''copy'', JObj [])])"] both
  have "construct (Some (JObj [(''bundle'', JObj []), (''copy'', JObj [])])) =
      Inr \<lparr> config_bundle = getKey ''bundle'' (JObj [(''bundle'', JObj []), (''copy'', JObj [])]),
            config_copy = getKey ''copy'' (JObj [(''bundle'', JObj []), (''copy'', JObj [])]) \<rparr>"
    by blast
  ultimately show ?thesis by (simp only: keys)
qed

text \<open>
  A configuration that lacks one of the two keys is accepted: the unit test's
  configuration without environments has no \<open>copy\<close> key, and a configuration with a
  \<open>copy\<close> key alone has no \<open>bundle\<close> key.
\<close>

theorem construct_missing_copy_counterexample:
  "\<not> hasKey ''copy'' noEnvConfig
   \<and> construct (Some noEnvConfig) =
       Inr \<lparr> config_bundle = getKey ''bundle'' noEnvConfig, config_copy = None \<rparr>
   \<and> \<not> hasKey ''bundle'' (JObj [(''copy'', JObj [])])
   \<and> construct (Some (JObj [(''copy'', JObj [])])) =
       Inr \<lparr> config_bundle = None, config_copy = Some (JObj []) \<rparr>"
  by code_simp

text \<open>
  Claim C7. \<open>getAllEnvironments\<close> lists every referenced environment name exactly once,
  each at the place where it is first seen in the traversal. Without a referenced name
  the result is empty. For the complex configuration of the unit test the result is
  \<open>production\<close>, \<open>staging\<close>, \<open>sat\<close>, \<open>development\<close>, and for its configuration without
  environments it is empty.
\<close>

theorem getAllEnvironments_first_seen:
  "distinct (getAllEnvironments model)
   \<and> set (getAllEnvironments model) = set (referencedEnvironments model)
   \<and> getAllEnvironments model = rev (remdups (rev (referencedEnvironments model)))
   \<and> (referencedEnvironments model = [] \<longrightarrow> getAllEnvironments model = [])
   \<and> map_sum id getAllEnvironments (construct (Some complexConfig)) =
       Inr [''production'', ''staging'', ''sat'', ''development'']
   \<and> map_sum id getAllEnvironments (construct (Some noEnvConfig)) = Inr []"
proof (intro conjI)
  show "distinct (getAllEnvironments model)"
    by (simp add: getAllEnvironments_def firstSeen_distinct)
  show "set (getAllEnvironments model) = set (referencedEnvironments model)"
    by (simp add: getAllEnvironments_def firstSeen_set)
  show "getAllEnvironments model = rev (remdups (rev (referencedEnvironments model)))"
    by (simp add: getAllEnvironments_def firstSeen_order)
  show "referencedEnvironments model = [] \<longrightarrow> getAllEnvironments model = []"
    by (simp add: getAllEnvironments_def)
  show "map_sum id getAllEnvironments (construct (Some complexConfig)) =
       Inr [''production'', ''staging'', ''sat'', ''development'']"
    by code_simp
  show "map_sum id getAllEnvironments (construct (Some noEnvConfig)) = Inr []"
    by code_simp
qed

theorem getAllEnvironments_first_seen_witness:
  "referencedEnvironments \<lparr> config_bundle = getKey ''bundle'' noEnvConfig, config_copy = None \<rparr> = []
   \<and> getAllEnvironments \<lparr> config_bundle = getKey ''bundle'' noEnvConfig, config_copy = None \<rparr> = []"
proof -
  let ?model = "\<lparr> config_bundle = getKey ''bundle'' noEnvConfig, config_copy = None \<rparr>"
  have none: "referencedEnvironments ?model = []"
    by code_simp
  have "referencedEnvironments ?model = [] \<longrightarrow> getAllEnvironments ?model = []"
    using getAllEnvironments_first_seen [of ?model] by (elim conjE)
  with none show ?thesis by (intro conjI) (assumption, erule (1) mp)
qed

end
